theory Spec2Isabelle
  imports Main "HOL-Library.Word" "HOL-Library.Sublist"
begin

section \<open>JavaScript values and objects used by \<^verbatim>\<open>providers/webcrypto/sign.ts\<close>\<close>

text \<open>
  Strings are modelled as \<^typ>\<open>string\<close>; the model covers strings of 7-bit characters, on
  which \<^verbatim>\<open>String.prototype.toLowerCase\<close> is exactly the map of \<^verbatim>\<open>A..Z\<close> to \<^verbatim>\<open>a..z\<close>.
  JavaScript numbers stored into a \<^verbatim>\<open>Uint8Array\<close> are modelled as \<^typ>\<open>int\<close>: the store
  converts them modulo 256 (non-integral numbers are outside the model).
\<close>

type_synonym byte = "8 word"

datatype error =
    Error string    \<comment> \<open>\<^verbatim>\<open>new Error(message)\<close>\<close>
  | TypeError       \<comment> \<open>reading a property of \<^verbatim>\<open>null\<close>\<close>
  | RangeError      \<comment> \<open>\<^verbatim>\<open>TypedArray.prototype.set\<close> beyond the end of the target\<close>
  | Thrown string   \<comment> \<open>any other value: thrown by a collaborator, or given to \<^verbatim>\<open>abort\<close>\<close>

definition toLowerCase_char :: "char \<Rightarrow> char" where
  "toLowerCase_char c =
     (let n = (of_char c :: nat) in if 65 \<le> n \<and> n \<le> 90 then char_of (n + 32) else c)"

definition toLowerCase :: "string \<Rightarrow> string" where
  "toLowerCase s = map toLowerCase_char s"

text \<open>
  An object literal is the list of its own properties in insertion order. Every object
  literal inherits from \<^verbatim>\<open>Object.prototype\<close>; the \<^verbatim>\<open>in\<close> operator and the property read
  \<^verbatim>\<open>obj[k]\<close> both walk the prototype chain, \<^verbatim>\<open>Object.keys\<close> lists own properties only.
\<close>

type_synonym object_literal = "(string \<times> string) list"

definition Object_prototype :: "string list" where
  "Object_prototype =
     [''constructor'', ''__defineGetter__'', ''__defineSetter__'', ''hasOwnProperty'',
      ''__lookupGetter__'', ''__lookupSetter__'', ''isPrototypeOf'', ''propertyIsEnumerable'',
      ''toString'', ''valueOf'', ''__proto__'', ''toLocaleString'']"

datatype jsval =
    JString string      \<comment> \<open>a string value\<close>
  | JInherited string   \<comment> \<open>the function or object that \<^verbatim>\<open>Object.prototype\<close> holds under this name\<close>
  | JUndefined

definition Object_keys :: "object_literal \<Rightarrow> string list" where
  "Object_keys obj = map fst obj"

definition js_in :: "string \<Rightarrow> object_literal \<Rightarrow> bool" where
  "js_in k obj = (k \<in> set (Object_keys obj) \<or> k \<in> set Object_prototype)"

definition js_get :: "object_literal \<Rightarrow> string \<Rightarrow> jsval" where
  "js_get obj k =
     (case map_of obj k of
        Some v \<Rightarrow> JString v
      | None \<Rightarrow> if k \<in> set Object_prototype then JInherited k else JUndefined)"

fun truthy :: "jsval \<Rightarrow> bool" where
  "truthy (JString s) = (s \<noteq> [])"
| "truthy (JInherited k) = True"
| "truthy JUndefined = False"

definition js_or :: "jsval \<Rightarrow> jsval \<Rightarrow> jsval" where
  "js_or a b = (if truthy a then a else b)"

fun Array_join :: "string list \<Rightarrow> string \<Rightarrow> string" where
  "Array_join [] sep = []"
| "Array_join [x] sep = x"
| "Array_join (x # y # ys) sep = x @ sep @ Array_join (y # ys) sep"

definition ALGORITHMS :: object_literal where
  "ALGORITHMS = [(''hmac'', ''hmac'')]"

definition HASH :: object_literal where
  "HASH = [(''sha256'', ''sha-256''), (''sha-256'', ''sha-256''),
           (''sha1'', ''sha-1''), (''sha-1'', ''sha-1'')]"

section \<open>The store of \<^verbatim>\<open>Uint8Array\<close> objects\<close>

text \<open>
  A \<^verbatim>\<open>Uint8Array\<close> is a reference into a store; the store is the list of all arrays
  allocated so far and a reference is an index into it, so that an allocation returns
  the next index. Two references alias exactly when they are equal.
\<close>

type_synonym ref = nat
type_synonym heap = "byte list list"

definition ToUint8 :: "int \<Rightarrow> byte" where
  "ToUint8 n = word_of_int n"

definition new_Uint8Array_length :: "heap \<Rightarrow> nat \<Rightarrow> ref \<times> heap" where
  \<comment> \<open>\<^verbatim>\<open>new Uint8Array(n)\<close>: a fresh array of n zero bytes\<close>
  "new_Uint8Array_length h n = (length h, h @ [replicate n 0])"

definition new_Uint8Array_from :: "heap \<Rightarrow> int list \<Rightarrow> ref \<times> heap" where
  \<comment> \<open>\<^verbatim>\<open>new Uint8Array(numbers)\<close>: a fresh array, each element converted\<close>
  "new_Uint8Array_from h ns = (length h, h @ [map ToUint8 ns])"

definition Uint8Array_set :: "heap \<Rightarrow> ref \<Rightarrow> ref \<Rightarrow> nat \<Rightarrow> error + heap" where
  \<comment> \<open>\<^verbatim>\<open>target.set(source, offset)\<close>\<close>
  "Uint8Array_set h target source offset =
     (let src = h ! source; tgt = h ! target in
      if offset + length src > length tgt then Inl RangeError
      else Inr (h[target := take offset tgt @ src @ drop (offset + length src) tgt]))"

section \<open>Byte coercion and concatenation\<close>

datatype data =
    DString string
  | DNumbers "int list"   \<comment> \<open>\<^verbatim>\<open>number[]\<close>\<close>
  | DBytes ref            \<comment> \<open>\<^verbatim>\<open>Uint8Array\<close>\<close>
  | DNull                 \<comment> \<open>\<^verbatim>\<open>null\<close>: what \<^verbatim>\<open>close\<close> passes once the buffer is released\<close>

type_synonym codec = "string \<Rightarrow> error + int list"   \<comment> \<open>\<^verbatim>\<open>Codec.encode\<close>, which may throw\<close>

fun dataToArrayBufferView :: "heap \<Rightarrow> data \<Rightarrow> codec \<Rightarrow> error + ref \<times> heap" where
  "dataToArrayBufferView h (DString s) codec =
     (case codec s of Inl e \<Rightarrow> Inl e | Inr ns \<Rightarrow> Inr (new_Uint8Array_from h ns))"
| "dataToArrayBufferView h (DNumbers ns) codec = Inr (new_Uint8Array_from h ns)"
| "dataToArrayBufferView h DNull codec = Inr (new_Uint8Array_length h 0)"
| "dataToArrayBufferView h (DBytes r) codec = Inr (r, h)"

definition concatUint8Arrays :: "heap \<Rightarrow> ref option \<Rightarrow> ref \<Rightarrow> error + ref \<times> heap" where
  "concatUint8Arrays h left right =
     (case left of
        None \<Rightarrow> Inl TypeError
      | Some l \<Rightarrow>
          (let (result, h1) = new_Uint8Array_length h (length (h ! l) + length (h ! right)) in
           case Uint8Array_set h1 result l 0 of
             Inl e \<Rightarrow> Inl e
           | Inr h2 \<Rightarrow>
               (case Uint8Array_set h2 result right (length (h2 ! l)) of
                  Inl e \<Rightarrow> Inl e
                | Inr h3 \<Rightarrow> Inr (result, h3))))"

section \<open>Promises and the crypto engine\<close>

text \<open>
  A promise is modelled by what it eventually does: the calls to the engine that its
  computation makes, in order, and its outcome. \<^verbatim>\<open>Unsettled\<close> is a promise that stays
  pending for ever. The engine (\<^verbatim>\<open>window.crypto.subtle\<close>) and the \<^verbatim>\<open>utf8\<close> codec of
  dojo-core are collaborators outside this module: they are the fields of an environment
  that every operation takes as a parameter.

  A continuation reads the store as it is when the promise is created: no operation of
  this module writes to an array that exists already (every one of them only allocates),
  and callers are taken not to mutate a payload after passing it in. The arrays that a
  continuation allocates for itself are not kept in the store.
\<close>

datatype 'a outcome = Fulfilled 'a | Rejected error | Unsettled

datatype cryptoKey = CryptoKey nat   \<comment> \<open>an opaque handle\<close>

datatype algorithmAndHash = AlgorithmAndHash (ah_name: string) (ah_hash_name: jsval)

datatype call =
    ImportKey string "byte list" algorithmAndHash bool "string list"
  | Sign string cryptoKey "byte list"

type_synonym 'a promise = "call list \<times> 'a outcome"

record env =
  utf8 :: codec
  importKey :: "string \<Rightarrow> byte list \<Rightarrow> algorithmAndHash \<Rightarrow> bool \<Rightarrow> string list \<Rightarrow> cryptoKey outcome"
  subtle_sign :: "string \<Rightarrow> cryptoKey \<Rightarrow> byte list \<Rightarrow> byte list outcome"

definition DEFAULT_CODEC :: "env \<Rightarrow> codec" where
  "DEFAULT_CODEC E = utf8 E"

definition then_p :: "'a promise \<Rightarrow> ('a \<Rightarrow> 'b promise) \<Rightarrow> 'b promise" where
  \<comment> \<open>\<^verbatim>\<open>p.then(f)\<close>: f runs only when p is fulfilled; a promise returned by f is followed\<close>
  "then_p p f =
     (case snd p of
        Fulfilled x \<Rightarrow> (fst p @ fst (f x), snd (f x))
      | Rejected e \<Rightarrow> (fst p, Rejected e)
      | Unsettled \<Rightarrow> (fst p, Unsettled))"

text \<open>
  A SimpleKey holds a hash name and key data. The source casts the data to a string
  before encoding it (\<^verbatim>\<open><string> key.data\<close>): the model covers string key data. The array
  made of the encoded key data is local to \<^verbatim>\<open>produceCryptoKey\<close> and is given to the engine
  by its content.
\<close>

record simpleKey =
  sk_algorithm :: string
  sk_data :: string

datatype key = KeyHandle cryptoKey | KeySimple simpleKey

datatype keyarg =
    Now key               \<comment> \<open>a \<^verbatim>\<open>Key\<close>\<close>
  | Later "key outcome"   \<comment> \<open>a \<^verbatim>\<open>Promise<Key>\<close>, given by its outcome\<close>

fun Promise_resolve :: "keyarg \<Rightarrow> key promise" where
  "Promise_resolve (Now k) = ([], Fulfilled k)"
| "Promise_resolve (Later p) = ([], p)"

definition hash_name_of :: "string \<Rightarrow> jsval" where
  \<comment> \<open>\<^verbatim>\<open>HASH[hash] || hash\<close>\<close>
  "hash_name_of hash = js_or (js_get HASH hash) (JString hash)"

definition produceCryptoKey :: "env \<Rightarrow> string \<Rightarrow> key \<Rightarrow> cryptoKey promise" where
  "produceCryptoKey E algorithm k =
     (case k of
        KeyHandle handle \<Rightarrow> ([], Fulfilled handle)
      | KeySimple sk \<Rightarrow>
          (let hash = sk_algorithm sk;
               algorithmAndHash = AlgorithmAndHash algorithm (hash_name_of hash)
           in case utf8 E (sk_data sk) of
                Inl e \<Rightarrow> ([], Rejected e)
              | Inr ns \<Rightarrow>
                  (let input = map ToUint8 ns in
                   ([ImportKey ''raw'' input algorithmAndHash False [''sign'', ''verify'']],
                    importKey E ''raw'' input algorithmAndHash False [''sign'', ''verify'']))))"

definition resolved_key :: "env \<Rightarrow> string \<Rightarrow> keyarg \<Rightarrow> cryptoKey promise" where
  \<comment> \<open>\<^verbatim>\<open>Promise.resolve(key).then(produceCryptoKey.bind(null, algorithm))\<close>\<close>
  "resolved_key E algorithm k = then_p (Promise_resolve k) (produceCryptoKey E algorithm)"

definition sign :: "env \<Rightarrow> heap \<Rightarrow> string \<Rightarrow> keyarg \<Rightarrow> data \<Rightarrow> codec \<Rightarrow> byte list promise" where
  "sign E h algorithm k d codec =
     then_p (resolved_key E algorithm k)
       (\<lambda>ck. case dataToArrayBufferView h d codec of
                Inl e \<Rightarrow> ([], Rejected e)
              | Inr (view, h') \<Rightarrow>
                  then_p ([Sign algorithm ck (h' ! view)], subtle_sign E algorithm ck (h' ! view))
                    (\<lambda>signature. ([], Fulfilled signature)))"

section \<open>The streaming signer\<close>

text \<open>
  The \<^verbatim>\<open>signature\<close> promise of a signer is created in the constructor, which keeps the
  two functions that the executor receives. As for every ECMAScript promise (dojo-core's
  \<^verbatim>\<open>Promise\<close> is one), only the first call of either function has an effect: resolving
  with a promise locks \<^verbatim>\<open>signature\<close> to that promise, rejecting settles it, and later
  calls of both functions are ignored.
\<close>

datatype settlement =
    Pending
  | ResolvedWith "byte list promise"   \<comment> \<open>locked in to follow this promise\<close>
  | RejectedWith error

definition resolve_cell :: "settlement \<Rightarrow> byte list promise \<Rightarrow> settlement" where
  \<comment> \<open>the \<^verbatim>\<open>resolve\<close> function of a promise: only the first call of either function counts\<close>
  "resolve_cell c p = (case c of Pending \<Rightarrow> ResolvedWith p | _ \<Rightarrow> c)"

definition reject_cell :: "settlement \<Rightarrow> error \<Rightarrow> settlement" where
  \<comment> \<open>the \<^verbatim>\<open>reject\<close> function of a promise\<close>
  "reject_cell c reason = (case c of Pending \<Rightarrow> RejectedWith reason | _ \<Rightarrow> c)"

record webSigner =
  s_key :: keyarg
  s_algorithm :: string
  s_codec :: codec
  s_buffer :: "ref option"   \<comment> \<open>\<^verbatim>\<open>None\<close> is \<^verbatim>\<open>null\<close>\<close>
  signature :: settlement

definition WebSigner_start :: "webSigner \<Rightarrow> heap \<Rightarrow> unit outcome \<times> webSigner \<times> heap" where
  "WebSigner_start s h =
     (let (r, h') = new_Uint8Array_length h 0 in (Fulfilled (), s\<lparr>s_buffer := Some r\<rparr>, h'))"

definition WebSigner_new :: "heap \<Rightarrow> string \<Rightarrow> keyarg \<Rightarrow> codec \<Rightarrow> webSigner \<times> heap" where
  "WebSigner_new h algorithm k codec =
     (let s0 = \<lparr>s_key = k, s_algorithm = algorithm, s_codec = codec, s_buffer = None,
                signature = Pending\<rparr>;
          (_, s1, h1) = WebSigner_start s0 h
      in (s1, h1))"

definition WebSigner_abort :: "webSigner \<Rightarrow> heap \<Rightarrow> error \<Rightarrow> unit outcome \<times> webSigner \<times> heap" where
  "WebSigner_abort s h reason =
     (Fulfilled (), s\<lparr>signature := reject_cell (signature s) reason\<rparr>, h)"

definition WebSigner_write :: "webSigner \<Rightarrow> heap \<Rightarrow> data \<Rightarrow> unit outcome \<times> webSigner \<times> heap" where
  "WebSigner_write s h chunk =
     (case dataToArrayBufferView h chunk (s_codec s) of
        Inl e \<Rightarrow> (Rejected e, s, h)
      | Inr (view, h1) \<Rightarrow>
          (case concatUint8Arrays h1 (s_buffer s) view of
             Inl e \<Rightarrow> (Rejected e, s, h1)
           | Inr (result, h2) \<Rightarrow> (Fulfilled (), s\<lparr>s_buffer := Some result\<rparr>, h2)))"

definition buffer_data :: "ref option \<Rightarrow> data" where
  "buffer_data b = (case b of Some r \<Rightarrow> DBytes r | None \<Rightarrow> DNull)"

definition WebSigner_close :: "env \<Rightarrow> webSigner \<Rightarrow> heap \<Rightarrow> unit outcome \<times> webSigner \<times> heap" where
  \<comment> \<open>\<^verbatim>\<open>sign\<close> returns a promise and never throws, so the \<^verbatim>\<open>catch\<close> branch is not taken\<close>
  "WebSigner_close E s h =
     (Fulfilled (),
      s\<lparr>signature := resolve_cell (signature s)
                        (sign E h (s_algorithm s) (s_key s) (buffer_data (s_buffer s)) (s_codec s)),
        s_buffer := None\<rparr>,
      h)"

section \<open>The factory\<close>

record signFunction =
  sf_algorithm :: string

definition apostrophe :: string where
  \<comment> \<open>the one-character string holding a single quote\<close>
  "apostrophe = [CHR 0x27]"

definition getSign :: "string \<Rightarrow> error + signFunction" where
  "getSign name =
     (let algorithm = toLowerCase name in
      if \<not> js_in algorithm ALGORITHMS
      then Inl (Error (''invalid algorithm; available algorithms are [ '' @ apostrophe @
                       Array_join (Object_keys ALGORITHMS) (apostrophe @ '', '' @ apostrophe) @
                       apostrophe @ '' ]''))
      else Inr \<lparr>sf_algorithm = algorithm\<rparr>)"

definition codec_or_default :: "env \<Rightarrow> codec option \<Rightarrow> codec" where
  \<comment> \<open>the default parameter \<^verbatim>\<open>codec: Codec = DEFAULT_CODEC\<close>\<close>
  "codec_or_default E c = (case c of None \<Rightarrow> DEFAULT_CODEC E | Some codec \<Rightarrow> codec)"

definition signFunction_call ::
  "env \<Rightarrow> heap \<Rightarrow> signFunction \<Rightarrow> keyarg \<Rightarrow> data \<Rightarrow> codec option \<Rightarrow> byte list promise" where
  "signFunction_call E h sf k d c = sign E h (sf_algorithm sf) k d (codec_or_default E c)"

definition signFunction_create ::
  "env \<Rightarrow> heap \<Rightarrow> signFunction \<Rightarrow> keyarg \<Rightarrow> codec option \<Rightarrow> webSigner \<times> heap" where
  "signFunction_create E h sf k c = WebSigner_new h (sf_algorithm sf) k (codec_or_default E c)"

section \<open>Sequences of calls on one signer\<close>

datatype op = Start | Write data | Close | Abort error

fun step :: "env \<Rightarrow> webSigner \<times> heap \<Rightarrow> op \<Rightarrow> unit outcome \<times> webSigner \<times> heap" where
  "step E (s, h) Start = WebSigner_start s h"
| "step E (s, h) (Write chunk) = WebSigner_write s h chunk"
| "step E (s, h) Close = WebSigner_close E s h"
| "step E (s, h) (Abort reason) = WebSigner_abort s h reason"

fun run :: "env \<Rightarrow> webSigner \<times> heap \<Rightarrow> op list \<Rightarrow> webSigner \<times> heap" where
  "run E sh [] = sh"
| "run E sh (x # xs) = run E (snd (step E sh x)) xs"

section \<open>Observations on the operations\<close>

text \<open>The bytes that a payload is coerced to: the content of the view that
  \<^const>\<open>dataToArrayBufferView\<close> returns.\<close>

definition coerced :: "heap \<Rightarrow> data \<Rightarrow> codec \<Rightarrow> error + byte list" where
  "coerced h d codec =
     (case dataToArrayBufferView h d codec of Inl e \<Rightarrow> Inl e | Inr (r, h') \<Rightarrow> Inr (h' ! r))"

text \<open>A payload is well formed in a store when the array it refers to has been allocated.\<close>

fun wf_data :: "heap \<Rightarrow> data \<Rightarrow> bool" where
  "wf_data h (DBytes r) = (r < length h)"
| "wf_data h d = True"

text \<open>The bytes of the chunks that a signer takes in: a chunk whose coercion throws
  contributes nothing.\<close>

definition received :: "heap \<Rightarrow> codec \<Rightarrow> data list \<Rightarrow> byte list" where
  "received h codec chunks =
     concat (map (\<lambda>c. case coerced h c codec of Inl e \<Rightarrow> [] | Inr bs \<Rightarrow> bs) chunks)"

fun terminal :: "op \<Rightarrow> bool" where
  "terminal Close = True"
| "terminal (Abort reason) = True"
| "terminal x = False"

text \<open>The raw key material of the \<^verbatim>\<open>importKey\<close> calls of a log.\<close>

fun import_inputs :: "call list \<Rightarrow> byte list list" where
  "import_inputs [] = []"
| "import_inputs (ImportKey format input alg extractable usages # cs) = input # import_inputs cs"
| "import_inputs (Sign alg ck bytes # cs) = import_inputs cs"

section \<open>A deterministic environment for concrete evaluation\<close>

definition ascii_codec :: codec where
  \<comment> \<open>one byte per character; throws on a character beyond 7 bits\<close>
  "ascii_codec s =
     (if list_all (\<lambda>c. (of_char c :: nat) < 128) s then Inr (map of_char s)
      else Inl (Thrown ''not ascii''))"

definition reverse_codec :: codec where
  \<comment> \<open>a codec that differs from \<^const>\<open>ascii_codec\<close> on every string of two distinct characters\<close>
  "reverse_codec s = Inr (rev (map of_char s))"

definition fake_env :: env where
  "fake_env =
     \<lparr>utf8 = ascii_codec,
      importKey = (\<lambda>format input alg extractable usages. Fulfilled (CryptoKey (length input))),
      subtle_sign = (\<lambda>alg ck bytes. case ck of CryptoKey n \<Rightarrow> Fulfilled (of_nat n # bytes))\<rparr>"

definition secret_key :: simpleKey where
  "secret_key = \<lparr>sk_algorithm = ''sha256'', sk_data = ''secret''\<rparr>"

definition hmac :: signFunction where
  "hmac = \<lparr>sf_algorithm = ''hmac''\<rparr>"

definition fresh_signer :: "webSigner \<times> heap" where
  "fresh_signer = WebSigner_new [] ''hmac'' (Now (KeySimple secret_key)) ascii_codec"

section \<open>Store lemmas\<close>

lemma Uint8Array_set_fresh:
  assumes "source < length h" "offset + length (h ! source) \<le> length t"
  shows "Uint8Array_set (h @ [t]) (length h) source offset =
           Inr (h @ [take offset t @ h ! source @ drop (offset + length (h ! source)) t])"
  using assms by (simp add: Uint8Array_set_def Let_def nth_append)

lemma concatUint8Arrays_closed_form:
  assumes "l < length h" "r < length h"
  shows "concatUint8Arrays h (Some l) r = Inr (length h, h @ [h ! l @ h ! r])"
proof -
  let ?n = "length (h ! l) + length (h ! r)"
  have s1: "Uint8Array_set (h @ [replicate ?n 0]) (length h) l 0 =
              Inr (h @ [h ! l @ replicate (length (h ! r)) 0])"
    using assms(1) by (simp add: Uint8Array_set_fresh)
  have s2: "Uint8Array_set (h @ [h ! l @ replicate (length (h ! r)) 0]) (length h) r (length (h ! l)) =
              Inr (h @ [h ! l @ h ! r])"
    using assms(2) by (simp add: Uint8Array_set_fresh)
  show ?thesis
    using assms s1 s2 by (simp add: concatUint8Arrays_def new_Uint8Array_length_def nth_append)
qed

lemma concatUint8Arrays_null: "concatUint8Arrays h None r = Inl TypeError"
  by (simp add: concatUint8Arrays_def)

lemma dataToArrayBufferView_cases:
  "dataToArrayBufferView h d codec = Inr (r, h') \<Longrightarrow>
     (d = DBytes r \<and> h' = h) \<or> (r = length h \<and> (\<exists>bs. h' = h @ [bs]))"
  by (cases d) (auto simp: new_Uint8Array_from_def new_Uint8Array_length_def split: sum.splits)

lemma dataToArrayBufferView_valid:
  assumes "dataToArrayBufferView h d codec = Inr (r, h')" "wf_data h d"
  shows "r < length h' \<and> prefix h h'"
  using dataToArrayBufferView_cases [OF assms(1)] assms(2) by auto

lemma prefix_nth: "prefix h h' \<Longrightarrow> i < length h \<Longrightarrow> h' ! i = h ! i"
  by (auto simp: prefix_def nth_append)

lemma wf_data_prefix: "wf_data h d \<Longrightarrow> prefix h h' \<Longrightarrow> wf_data h' d"
  by (cases d) (auto dest: prefix_length_le)

lemma coerced_prefix:
  assumes "wf_data h d" "prefix h h'"
  shows "coerced h' d codec = coerced h d codec"
  using assms
  by (cases d)
     (auto simp: coerced_def new_Uint8Array_from_def new_Uint8Array_length_def prefix_nth
           split: sum.splits)

lemma received_prefix:
  "\<forall>c\<in>set chunks. wf_data h c \<Longrightarrow> prefix h h' \<Longrightarrow>
     received h' codec chunks = received h codec chunks"
proof (induction chunks)
  case Nil
  then show ?case by (simp add: received_def)
next
  case (Cons c cs)
  then have "coerced h' c codec = coerced h c codec"
    by (simp add: coerced_prefix)
  with Cons show ?case by (simp add: received_def)
qed

lemma coerced_numbers: "coerced h (DNumbers (map uint bs)) codec = Inr bs"
proof -
  have "map ToUint8 (map uint bs) = bs"
    by (induction bs) (simp_all add: ToUint8_def)
  then show ?thesis
    by (simp add: coerced_def new_Uint8Array_from_def)
qed

section \<open>Lemmas on the signer\<close>

lemma WebSigner_new_eq:
  "WebSigner_new h algorithm k codec =
     (\<lparr>s_key = k, s_algorithm = algorithm, s_codec = codec, s_buffer = Some (length h),
       signature = Pending\<rparr>, h @ [[]])"
  by (simp add: WebSigner_new_def WebSigner_start_def new_Uint8Array_length_def)

lemma write_rejected:
  "coerced h chunk (s_codec s) = Inl e \<Longrightarrow> WebSigner_write s h chunk = (Rejected e, s, h)"
  by (auto simp: coerced_def WebSigner_write_def split: sum.splits prod.splits)

lemma write_appends:
  assumes "s_buffer s = Some b" "b < length h" "wf_data h chunk"
      and "coerced h chunk (s_codec s) = Inr bs"
  shows "\<exists>b' h'. WebSigner_write s h chunk = (Fulfilled (), s\<lparr>s_buffer := Some b'\<rparr>, h')
           \<and> b' < length h' \<and> prefix h h' \<and> h' ! b' = h ! b @ bs"
proof -
  from assms(4) obtain view h1 where v: "dataToArrayBufferView h chunk (s_codec s) = Inr (view, h1)"
    and bs: "h1 ! view = bs"
    by (auto simp: coerced_def split: sum.splits prod.splits)
  from dataToArrayBufferView_valid [OF v assms(3)] have view: "view < length h1" and p: "prefix h h1"
    by auto
  from p assms(2) have b1: "b < length h1" and hb: "h1 ! b = h ! b"
    by (auto simp: prefix_nth dest: prefix_length_le)
  have c: "concatUint8Arrays h1 (Some b) view = Inr (length h1, h1 @ [h1 ! b @ h1 ! view])"
    using b1 view by (rule concatUint8Arrays_closed_form)
  have "prefix h (h1 @ [h1 ! b @ h1 ! view])"
    using p by (simp add: prefix_prefix)
  then show ?thesis
    using v c assms(1) bs hb
    by (intro exI [of _ "length h1"] exI [of _ "h1 @ [h1 ! b @ h1 ! view]"])
       (simp add: WebSigner_write_def)
qed

lemma write_released:
  assumes "s_buffer s = None"
  shows "\<exists>e. fst (WebSigner_write s h chunk) = Rejected e"
    and "fst (snd (WebSigner_write s h chunk)) = s"
  using assms
  by (auto simp: WebSigner_write_def concatUint8Arrays_null split: sum.splits prod.splits)

lemma run_append: "run E sh (xs @ ys) = run E (run E sh xs) ys"
  by (induction xs arbitrary: sh) simp_all

lemma run_writes:
  assumes "s_buffer s = Some b" "b < length h" "\<forall>c\<in>set chunks. wf_data h c"
  shows "\<exists>b' h'. run E (s, h) (map Write chunks) = (s\<lparr>s_buffer := Some b'\<rparr>, h')
           \<and> b' < length h' \<and> prefix h h' \<and> h' ! b' = h ! b @ received h (s_codec s) chunks"
  using assms
proof (induction chunks arbitrary: s h b)
  case Nil
  then show ?case
    by (intro exI [of _ b] exI [of _ h]) (simp add: received_def)
next
  case (Cons c cs)
  show ?case
  proof (cases "coerced h c (s_codec s)")
    case (Inl e)
    from Cons.prems have "\<exists>b' h'. run E (s, h) (map Write cs) = (s\<lparr>s_buffer := Some b'\<rparr>, h')
           \<and> b' < length h' \<and> prefix h h' \<and> h' ! b' = h ! b @ received h (s_codec s) cs"
      by (intro Cons.IH) auto
    then show ?thesis
      using Inl by (simp add: write_rejected received_def)
  next
    case (Inr bs)
    from Cons.prems have wfc: "wf_data h c" by simp
    from write_appends [OF Cons.prems(1,2) wfc Inr]
    obtain b1 h1 where w: "WebSigner_write s h c = (Fulfilled (), s\<lparr>s_buffer := Some b1\<rparr>, h1)"
      and b1: "b1 < length h1" and p: "prefix h h1" and hb: "h1 ! b1 = h ! b @ bs"
      by blast
    let ?s1 = "s\<lparr>s_buffer := Some b1\<rparr>"
    have wf1: "\<forall>c\<in>set cs. wf_data h1 c"
      using Cons.prems(3) p by (auto intro: wf_data_prefix)
    have "\<exists>b' h'. run E (?s1, h1) (map Write cs) = (?s1\<lparr>s_buffer := Some b'\<rparr>, h')
           \<and> b' < length h' \<and> prefix h1 h' \<and> h' ! b' = h1 ! b1 @ received h1 (s_codec ?s1) cs"
      using b1 wf1 by (intro Cons.IH) auto
    then obtain b' h' where r: "run E (?s1, h1) (map Write cs) = (s\<lparr>s_buffer := Some b'\<rparr>, h')"
      and b': "b' < length h'" and p': "prefix h1 h'"
      and hb': "h' ! b' = h1 ! b1 @ received h1 (s_codec s) cs"
      by auto
    have rc: "received h1 (s_codec s) cs = received h (s_codec s) cs"
      using Cons.prems(3) p by (intro received_prefix) auto
    have "prefix h h'" using p p' by (rule prefix_order.trans)
    moreover have "h' ! b' = h ! b @ received h (s_codec s) (c # cs)"
      using hb' hb rc Inr by (simp add: received_def)
    ultimately show ?thesis
      using w r b' by (intro exI [of _ b'] exI [of _ h']) simp
  qed
qed

lemma then_p_fulfilled_id:
  "then_p (cs, out) (\<lambda>signature. ([], Fulfilled signature)) = (cs, out)"
  by (cases out) (simp_all add: then_p_def)

lemma sign_by_coerced:
  "sign E h algorithm k d codec =
     then_p (resolved_key E algorithm k)
       (\<lambda>ck. case coerced h d codec of
                Inl e \<Rightarrow> ([], Rejected e)
              | Inr bs \<Rightarrow> ([Sign algorithm ck bs], subtle_sign E algorithm ck bs))"
  by (simp add: sign_def coerced_def then_p_fulfilled_id split: sum.splits prod.splits)

lemma sign_cong_coerced:
  "coerced h d codec = coerced h2 d2 codec2 \<Longrightarrow>
     sign E h algorithm k d codec = sign E h2 algorithm k d2 codec2"
  by (simp add: sign_by_coerced)

lemma step_static:
  "s_key (fst (snd (step E (s, h) x))) = s_key s
   \<and> s_algorithm (fst (snd (step E (s, h) x))) = s_algorithm s
   \<and> s_codec (fst (snd (step E (s, h) x))) = s_codec s"
  by (cases x)
     (auto simp: WebSigner_start_def new_Uint8Array_length_def WebSigner_write_def
        WebSigner_close_def WebSigner_abort_def split: sum.splits prod.splits)

lemma run_static:
  "s_key (fst (run E sh ops)) = s_key (fst sh)
   \<and> s_algorithm (fst (run E sh ops)) = s_algorithm (fst sh)
   \<and> s_codec (fst (run E sh ops)) = s_codec (fst sh)"
proof (induction ops arbitrary: sh)
  case Nil
  then show ?case by simp
next
  case (Cons x xs)
  obtain s h where sh: "sh = (s, h)" by (cases sh)
  show ?case
    using Cons [of "snd (step E (s, h) x)"] step_static [of E s h x] by (simp add: sh)
qed

lemma step_nonterminal:
  "\<not> terminal x \<Longrightarrow> signature (fst (snd (step E (s, h) x))) = signature s"
  by (cases x)
     (auto simp: WebSigner_start_def new_Uint8Array_length_def WebSigner_write_def
        split: sum.splits prod.splits)

lemma step_settled:
  "signature s \<noteq> Pending \<Longrightarrow> signature (fst (snd (step E (s, h) x))) = signature s"
  by (cases x; cases "signature s")
     (auto simp: WebSigner_start_def new_Uint8Array_length_def WebSigner_write_def
        WebSigner_close_def WebSigner_abort_def resolve_cell_def reject_cell_def
        split: sum.splits prod.splits)

lemma run_nonterminal:
  "\<forall>x \<in> set pre. \<not> terminal x \<Longrightarrow> signature (fst (run E sh pre)) = signature (fst sh)"
proof (induction pre arbitrary: sh)
  case Nil
  then show ?case by simp
next
  case (Cons x xs)
  obtain s h where sh: "sh = (s, h)" by (cases sh)
  show ?case
    using Cons.prems Cons.IH [of "snd (step E (s, h) x)"] step_nonterminal [of x E s h]
    by (simp add: sh)
qed

lemma run_settled:
  "signature (fst sh) \<noteq> Pending \<Longrightarrow> signature (fst (run E sh ops)) = signature (fst sh)"
proof (induction ops arbitrary: sh)
  case Nil
  then show ?case by simp
next
  case (Cons x xs)
  obtain s h where sh: "sh = (s, h)" by (cases sh)
  show ?case
    using Cons.prems Cons.IH [of "snd (step E (s, h) x)"] step_settled [of s E h x]
    by (simp add: sh)
qed

lemma step_released:
  "s_buffer s = None \<Longrightarrow> x \<noteq> Start \<Longrightarrow> s_buffer (fst (snd (step E (s, h) x))) = None"
  by (cases x)
     (auto simp: WebSigner_write_def WebSigner_close_def WebSigner_abort_def
        concatUint8Arrays_null split: sum.splits prod.splits)

lemma run_released:
  "s_buffer (fst sh) = None \<Longrightarrow> Start \<notin> set ops \<Longrightarrow> s_buffer (fst (run E sh ops)) = None"
proof (induction ops arbitrary: sh)
  case Nil
  then show ?case by simp
next
  case (Cons x xs)
  obtain s h where sh: "sh = (s, h)" by (cases sh)
  show ?case
    using Cons.prems Cons.IH [of "snd (step E (s, h) x)"] step_released [of s x E h]
    by (auto simp: sh)
qed

section \<open>Lemmas on key resolution\<close>

lemma import_inputs_append: "import_inputs (xs @ ys) = import_inputs xs @ import_inputs ys"
  by (induction xs rule: import_inputs.induct) simp_all

lemma resolved_key_simple:
  assumes "snd (Promise_resolve k) = Fulfilled (KeySimple sk)" and "utf8 E (sk_data sk) = Inr ns"
  shows "resolved_key E algorithm k =
           ([ImportKey ''raw'' (map ToUint8 ns) (AlgorithmAndHash algorithm (hash_name_of (sk_algorithm sk)))
               False [''sign'', ''verify'']],
            importKey E ''raw'' (map ToUint8 ns) (AlgorithmAndHash algorithm (hash_name_of (sk_algorithm sk)))
               False [''sign'', ''verify''])"
  using assms
  by (cases k) (simp_all add: resolved_key_def then_p_def produceCryptoKey_def Let_def)

lemma sign_import_inputs:
  assumes "snd (Promise_resolve k) = Fulfilled (KeySimple sk)" and "utf8 E (sk_data sk) = Inr ns"
  shows "import_inputs (fst (sign E h algorithm k d codec)) = [map ToUint8 ns]"
proof -
  let ?imp = "ImportKey ''raw'' (map ToUint8 ns) (AlgorithmAndHash algorithm (hash_name_of (sk_algorithm sk)))
               False [''sign'', ''verify'']"
  have "fst (sign E h algorithm k d codec) = [?imp]
        \<or> (\<exists>ck bs. fst (sign E h algorithm k d codec) = [?imp, Sign algorithm ck bs])"
    unfolding sign_by_coerced resolved_key_simple [OF assms]
    by (cases "importKey E ''raw'' (map ToUint8 ns)
                 (AlgorithmAndHash algorithm (hash_name_of (sk_algorithm sk))) False [''sign'', ''verify'']";
        cases "coerced h d codec")
       (simp_all add: then_p_def)
  then show ?thesis by auto
qed

lemma step_import_inputs:
  assumes "snd (Promise_resolve (s_key s)) = Fulfilled (KeySimple sk)" and "utf8 E (sk_data sk) = Inr ns"
      and "\<forall>p. signature s = ResolvedWith p \<longrightarrow> import_inputs (fst p) = [map ToUint8 ns]"
  shows "\<forall>p. signature (fst (snd (step E (s, h) x))) = ResolvedWith p \<longrightarrow>
           import_inputs (fst p) = [map ToUint8 ns]"
proof (cases "signature s = Pending")
  case False
  then show ?thesis
    using assms(3) by (simp add: step_settled)
next
  case True
  show ?thesis
  proof (cases x)
    case Close
    then show ?thesis
      using True sign_import_inputs [OF assms(1,2)]
      by (simp add: WebSigner_close_def resolve_cell_def)
  next
    case (Abort reason)
    then show ?thesis
      using True by (simp add: WebSigner_abort_def reject_cell_def)
  next
    case Start
    then show ?thesis
      using True step_nonterminal [of Start E s h] by simp
  next
    case (Write chunk)
    then show ?thesis
      using True step_nonterminal [of "Write chunk" E s h] by simp
  qed
qed

lemma run_import_inputs:
  assumes "snd (Promise_resolve (s_key (fst sh))) = Fulfilled (KeySimple sk)" and "utf8 E (sk_data sk) = Inr ns"
      and "\<forall>p. signature (fst sh) = ResolvedWith p \<longrightarrow> import_inputs (fst p) = [map ToUint8 ns]"
  shows "\<forall>p. signature (fst (run E sh ops)) = ResolvedWith p \<longrightarrow>
           import_inputs (fst p) = [map ToUint8 ns]"
  using assms
proof (induction ops arbitrary: sh)
  case Nil
  then show ?case by simp
next
  case (Cons x xs)
  obtain s h where sh: "sh = (s, h)" by (cases sh)
  let ?sh1 = "snd (step E (s, h) x)"
  have k: "snd (Promise_resolve (s_key (fst ?sh1))) = Fulfilled (KeySimple sk)"
    using step_static [of E s h x] Cons.prems(1) by (simp add: sh)
  have i: "\<forall>p. signature (fst ?sh1) = ResolvedWith p \<longrightarrow> import_inputs (fst p) = [map ToUint8 ns]"
    using Cons.prems by (intro step_import_inputs) (simp_all add: sh)
  have "\<forall>p. signature (fst (run E ?sh1 xs)) = ResolvedWith p \<longrightarrow>
           import_inputs (fst p) = [map ToUint8 ns]"
    using k Cons.prems(2) i by (rule Cons.IH)
  then show ?case by (simp add: sh)
qed

section \<open>Lemmas on the factory\<close>

lemma getSign_supported:
  "toLowerCase name \<in> set (Object_keys ALGORITHMS) \<Longrightarrow>
     getSign name = Inr \<lparr>sf_algorithm = toLowerCase name\<rparr>"
  by (simp add: getSign_def js_in_def)

lemma getSign_unsupported:
  "toLowerCase name \<notin> set (Object_keys ALGORITHMS) \<Longrightarrow> toLowerCase name \<notin> set Object_prototype \<Longrightarrow>
     getSign name = Inl (Error (''invalid algorithm; available algorithms are [ '' @ apostrophe
                                  @ ''hmac'' @ apostrophe @ '' ]''))"
  by (simp add: getSign_def js_in_def Object_keys_def ALGORITHMS_def)

lemma getSign_mixed_case: "getSign ''HmAc'' = Inr \<lparr>sf_algorithm = ''hmac''\<rparr>"
  by (simp add: getSign_def js_in_def Object_keys_def ALGORITHMS_def toLowerCase_def
      toLowerCase_char_def char_of_eq_iff)

section \<open>The claims\<close>

subsection \<open>C1: streaming and one-shot signing agree\<close>

text \<open>
  C1. A signer made by \<^verbatim>\<open>create\<close> of a sign function that receives the chunks
  \<open>C1, ..., Cn\<close> by successive \<^verbatim>\<open>write\<close> calls and is then closed resolves its
  \<^verbatim>\<open>signature\<close> with the very promise that the one-shot call of the same sign function,
  with the same key and codec, gives on the concatenation of the chunks: on any payload
  that is coerced to the concatenation of the byte sequences that the chunks are coerced
  to (a chunk whose \<^verbatim>\<open>write\<close> is rejected has not been received and contributes no
  bytes). Chunks and payload must refer to allocated arrays. By \<open>coerced_numbers\<close> there
  is such a payload for every sequence of chunks.
\<close>

theorem streaming_equals_one_shot:
  assumes "\<forall>c \<in> set chunks. wf_data h c" and "wf_data h2 payload"
      and "coerced h2 payload (codec_or_default E codec) =
             Inr (received h (codec_or_default E codec) chunks)"
  shows "signature (fst (run E (signFunction_create E h sf k codec) (map Write chunks @ [Close])))
           = ResolvedWith (signFunction_call E h2 sf k payload codec)"
proof -
  let ?c = "codec_or_default E codec"
  let ?s = "\<lparr>s_key = k, s_algorithm = sf_algorithm sf, s_codec = ?c, s_buffer = Some (length h),
             signature = Pending\<rparr>"
  have wf: "\<forall>c \<in> set chunks. wf_data (h @ [[]]) c"
    using assms(1) by (auto intro: wf_data_prefix)
  have "\<exists>b' h'. run E (?s, h @ [[]]) (map Write chunks) = (?s\<lparr>s_buffer := Some b'\<rparr>, h')
           \<and> b' < length h' \<and> prefix (h @ [[]]) h'
           \<and> h' ! b' = (h @ [[]]) ! length h @ received (h @ [[]]) (s_codec ?s) chunks"
    using wf by (intro run_writes) simp_all
  then obtain b' h' where r: "run E (?s, h @ [[]]) (map Write chunks) = (?s\<lparr>s_buffer := Some b'\<rparr>, h')"
    and hb: "h' ! b' = received (h @ [[]]) ?c chunks"
    by auto
  have "received (h @ [[]]) ?c chunks = received h ?c chunks"
    using assms(1) by (intro received_prefix) simp_all
  with hb assms(3) have "coerced h' (DBytes b') ?c = coerced h2 payload ?c"
    by (simp add: coerced_def)
  then have "sign E h' (sf_algorithm sf) k (DBytes b') ?c = sign E h2 (sf_algorithm sf) k payload ?c"
    by (rule sign_cong_coerced)
  then show ?thesis
    using r
    by (simp add: signFunction_create_def signFunction_call_def WebSigner_new_eq run_append
        WebSigner_close_def resolve_cell_def buffer_data_def)
qed

theorem streaming_equals_one_shot_witness:
  "wf_data [] (DString ''hello '') \<and> wf_data [] (DString ''world'')
   \<and> wf_data [] (DString ''hello world'')
   \<and> coerced [] (DString ''hello world'') (codec_or_default fake_env None) =
       Inr (received [] (codec_or_default fake_env None) [DString ''hello '', DString ''world''])
   \<and> signature (fst (run fake_env (signFunction_create fake_env [] hmac (Now (KeySimple secret_key)) None)
                      [Write (DString ''hello ''), Write (DString ''world''), Close]))
       = ResolvedWith (signFunction_call fake_env [] hmac (Now (KeySimple secret_key))
                         (DString ''hello world'') None)"
proof -
  have c: "coerced [] (DString ''hello world'') (codec_or_default fake_env None) =
       Inr (received [] (codec_or_default fake_env None) [DString ''hello '', DString ''world''])"
    by (simp add: coerced_def received_def codec_or_default_def DEFAULT_CODEC_def fake_env_def
        ascii_codec_def new_Uint8Array_from_def)
  have w: "\<forall>c \<in> set [DString ''hello '', DString ''world'']. wf_data [] c"
    by simp
  have v: "wf_data [] (DString ''hello world'')"
    by simp
  show ?thesis
    using c streaming_equals_one_shot [OF w v c, of hmac "Now (KeySimple secret_key)"] by simp
qed

subsection \<open>C2: the first terminal call settles the signature\<close>

text \<open>
  C2. On a signer whose \<^verbatim>\<open>signature\<close> is pending, after any calls that are neither
  \<^verbatim>\<open>close\<close> nor \<^verbatim>\<open>abort\<close>: if \<^verbatim>\<open>abort(reason)\<close> comes first, \<^verbatim>\<open>signature\<close> is rejected
  with \<open>reason\<close> whatever is called afterwards, \<^verbatim>\<open>close\<close> included; if \<^verbatim>\<open>close\<close> comes
  first, \<^verbatim>\<open>signature\<close> follows the signing of the buffer as it is at that call, whatever
  is called afterwards. In general no call changes a \<^verbatim>\<open>signature\<close> that is no longer
  pending.
\<close>

theorem first_terminal_call_wins:
  assumes "signature s = Pending" and "\<forall>x \<in> set pre. \<not> terminal x"
  shows "signature (fst (run E (s, h) (pre @ Abort reason # rest))) = RejectedWith reason
         \<and> signature (fst (run E (s, h) (pre @ Close # rest))) =
             ResolvedWith (sign E (snd (run E (s, h) pre)) (s_algorithm s) (s_key s)
                             (buffer_data (s_buffer (fst (run E (s, h) pre)))) (s_codec s))
         \<and> (signature t \<noteq> Pending \<longrightarrow> signature (fst (run E (t, g) ops)) = signature t)"
proof -
  obtain s1 h1 where r: "run E (s, h) pre = (s1, h1)"
    by (cases "run E (s, h) pre")
  have p: "signature s1 = Pending"
    using run_nonterminal [OF assms(2), of E "(s, h)"] assms(1) r by simp
  have st: "s_key s1 = s_key s" "s_algorithm s1 = s_algorithm s" "s_codec s1 = s_codec s"
    using run_static [of E "(s, h)" pre] r by simp_all
  have a: "signature (fst (run E (s, h) (pre @ Abort reason # rest))) = RejectedWith reason"
    using run_settled [of "snd (step E (s1, h1) (Abort reason))" E rest] p r
    by (simp add: run_append WebSigner_abort_def reject_cell_def)
  have c: "signature (fst (run E (s, h) (pre @ Close # rest))) =
             ResolvedWith (sign E h1 (s_algorithm s) (s_key s) (buffer_data (s_buffer s1)) (s_codec s))"
    using run_settled [of "snd (step E (s1, h1) Close)" E rest] p r st
    by (simp add: run_append WebSigner_close_def resolve_cell_def)
  have n: "signature t \<noteq> Pending \<longrightarrow> signature (fst (run E (t, g) ops)) = signature t"
    using run_settled [of "(t, g)" E ops] by simp
  show ?thesis
    using a c n r by simp
qed

theorem first_terminal_call_wins_witness:
  "signature (fst fresh_signer) = Pending
   \<and> \<not> terminal (Write (DString ''hi''))
   \<and> signature (fst (run fake_env fresh_signer [Write (DString ''hi''), Abort (Thrown ''stop'')])) \<noteq> Pending
   \<and> signature (fst (run fake_env fresh_signer
        [Write (DString ''hi''), Abort (Thrown ''stop''), Close, Write (DString ''x''),
         Abort (Thrown ''again'')]))
       = RejectedWith (Thrown ''stop'')"
proof -
  have p: "signature (fst fresh_signer) = Pending"
    by (simp add: fresh_signer_def WebSigner_new_eq)
  have n: "\<forall>x \<in> set [Write (DString ''hi'')]. \<not> terminal x"
    by simp
  show ?thesis
    using p n first_terminal_call_wins [OF p n, of fake_env "snd fresh_signer" "Thrown ''stop''"
        "[Close, Write (DString ''x''), Abort (Thrown ''again'')]"
        "fst (run fake_env fresh_signer [Write (DString ''hi''), Abort (Thrown ''stop'')])"]
      first_terminal_call_wins [OF p n, of fake_env "snd fresh_signer" "Thrown ''stop''" "[]"]
    by simp
qed

subsection \<open>C3: the factory and unsupported names\<close>

text \<open>
  C3. \<^verbatim>\<open>getSign\<close> is to throw for every name whose lower-casing is not a supported
  algorithm, the supported algorithms being the ones that its error message lists:
  \<^verbatim>\<open>Object.keys(ALGORITHMS)\<close>. The name \<^verbatim>\<open>constructor\<close> is its own lower-casing and is not
  among them, and \<^verbatim>\<open>getSign\<close> returns a sign function for it: the test
  \<^verbatim>\<open>algorithm in ALGORITHMS\<close> also holds of every property that the object literal
  inherits. (Lemmas \<open>getSign_supported\<close> and \<open>getSign_unsupported\<close> give the behaviour on
  all other names.)
\<close>

theorem getSign_accepts_inherited_name:
  "toLowerCase ''constructor'' = ''constructor''
   \<and> ''constructor'' \<notin> set (Object_keys ALGORITHMS)
   \<and> getSign ''constructor'' = Inr \<lparr>sf_algorithm = ''constructor''\<rparr>"
  by (simp add: getSign_def js_in_def Object_keys_def ALGORITHMS_def Object_prototype_def
      toLowerCase_def toLowerCase_char_def char_of_eq_iff)

subsection \<open>C4: hash names\<close>

text \<open>
  C4, as stated, asks the normalisation of \<^verbatim>\<open>key.algorithm\<close> to ignore case. It does not:
  \<^verbatim>\<open>SHA256\<close> and \<^verbatim>\<open>sha256\<close> differ only in case, the second is mapped to \<^verbatim>\<open>sha-256\<close> and
  the first is passed through unchanged.
\<close>

theorem hash_name_case_sensitive_counterexample:
  "toLowerCase ''SHA256'' = ''sha256''
   \<and> hash_name_of ''sha256'' = JString ''sha-256''
   \<and> hash_name_of ''SHA256'' = JString ''SHA256''
   \<and> hash_name_of ''SHA256'' \<noteq> hash_name_of ''sha256''"
  by (simp add: hash_name_of_def js_or_def js_get_def HASH_def Object_prototype_def
      toLowerCase_def toLowerCase_char_def char_of_eq_iff)

text \<open>
  C4, in the form that holds. When a SimpleKey is resolved, the hash name given to
  \<^verbatim>\<open>importKey\<close> is the normalisation of \<^verbatim>\<open>key.algorithm\<close>, which maps exactly the
  spellings \<^verbatim>\<open>sha256\<close> and \<^verbatim>\<open>sha-256\<close> to \<^verbatim>\<open>sha-256\<close>, and \<^verbatim>\<open>sha1\<close> and \<^verbatim>\<open>sha-1\<close> to \<^verbatim>\<open>sha-1\<close>,
  and passes every other name through unchanged, as long as the name is not that of a
  member of \<^verbatim>\<open>Object.prototype\<close>.
\<close>

theorem hash_name_exact_spellings:
  "hash_name_of ''sha256'' = JString ''sha-256''
   \<and> hash_name_of ''sha-256'' = JString ''sha-256''
   \<and> hash_name_of ''sha1'' = JString ''sha-1''
   \<and> hash_name_of ''sha-1'' = JString ''sha-1''
   \<and> (hash \<notin> set (Object_keys HASH) \<and> hash \<notin> set Object_prototype \<longrightarrow>
        hash_name_of hash = JString hash)
   \<and> (utf8 E (sk_data sk) = Inr ns \<longrightarrow>
        fst (produceCryptoKey E algorithm (KeySimple sk)) =
          [ImportKey ''raw'' (map ToUint8 ns)
             (AlgorithmAndHash algorithm (hash_name_of (sk_algorithm sk))) False [''sign'', ''verify'']])"
proof -
  have "hash \<notin> set (Object_keys HASH) \<and> hash \<notin> set Object_prototype \<longrightarrow>
        hash_name_of hash = JString hash"
    by (auto simp: hash_name_of_def js_or_def js_get_def HASH_def Object_keys_def)
  moreover have "hash_name_of ''sha256'' = JString ''sha-256''
   \<and> hash_name_of ''sha-256'' = JString ''sha-256''
   \<and> hash_name_of ''sha1'' = JString ''sha-1''
   \<and> hash_name_of ''sha-1'' = JString ''sha-1''"
    by (simp add: hash_name_of_def js_or_def js_get_def HASH_def)
  moreover have "utf8 E (sk_data sk) = Inr ns \<longrightarrow>
        fst (produceCryptoKey E algorithm (KeySimple sk)) =
          [ImportKey ''raw'' (map ToUint8 ns)
             (AlgorithmAndHash algorithm (hash_name_of (sk_algorithm sk))) False [''sign'', ''verify'']]"
    by (simp add: produceCryptoKey_def Let_def)
  ultimately show ?thesis by simp
qed

theorem hash_name_exact_spellings_witness:
  "''SHA-512'' \<notin> set (Object_keys HASH) \<and> ''SHA-512'' \<notin> set Object_prototype
   \<and> hash_name_of ''SHA-512'' = JString ''SHA-512''
   \<and> utf8 fake_env (sk_data secret_key) = Inr [115, 101, 99, 114, 101, 116]
   \<and> fst (produceCryptoKey fake_env ''hmac'' (KeySimple secret_key)) =
          [ImportKey ''raw'' [115, 101, 99, 114, 101, 116]
             (AlgorithmAndHash ''hmac'' (JString ''sha-256'')) False [''sign'', ''verify'']]"
proof -
  have n: "''SHA-512'' \<notin> set (Object_keys HASH) \<and> ''SHA-512'' \<notin> set Object_prototype"
    by (simp add: Object_keys_def HASH_def Object_prototype_def)
  have u: "utf8 fake_env (sk_data secret_key) = Inr [115, 101, 99, 114, 101, 116]"
    by (simp add: fake_env_def secret_key_def ascii_codec_def)
  have a: "sk_algorithm secret_key = ''sha256''"
    by (simp add: secret_key_def)
  show ?thesis
    using n u a
      hash_name_exact_spellings [of "''SHA-512''" fake_env secret_key "[115, 101, 99, 114, 101, 116]"
        "''hmac''"]
    by (simp add: ToUint8_def)
qed

subsection \<open>C5: a write whose chunk cannot be coerced\<close>

text \<open>
  C5. When the coercion of the chunk throws \<open>e\<close>, the promise that \<^verbatim>\<open>write\<close> returns is
  rejected with \<open>e\<close>; the \<^verbatim>\<open>signature\<close> and the buffer of the signer are as before, and so
  are the whole signer and the store: whatever is called next behaves as if the failed
  write had not been made. This holds in every state of the signer.
\<close>

theorem write_coercion_failure_recoverable:
  assumes "dataToArrayBufferView h chunk (s_codec s) = Inl e"
  shows "fst (WebSigner_write s h chunk) = Rejected e
         \<and> signature (fst (snd (WebSigner_write s h chunk))) = signature s
         \<and> s_buffer (fst (snd (WebSigner_write s h chunk))) = s_buffer s
         \<and> snd (WebSigner_write s h chunk) = (s, h)
         \<and> run E (s, h) (Write chunk # ops) = run E (s, h) ops"
  using assms by (simp add: WebSigner_write_def)

theorem write_coercion_failure_recoverable_witness:
  "dataToArrayBufferView (snd fresh_signer) (DString [CHR 0xE9]) (s_codec (fst fresh_signer))
     = Inl (Thrown ''not ascii'')
   \<and> fst (WebSigner_write (fst fresh_signer) (snd fresh_signer) (DString [CHR 0xE9]))
     = Rejected (Thrown ''not ascii'')
   \<and> run fake_env fresh_signer [Write (DString [CHR 0xE9]), Write (DString ''ok''), Close]
     = run fake_env fresh_signer [Write (DString ''ok''), Close]"
proof -
  have f: "dataToArrayBufferView (snd fresh_signer) (DString [CHR 0xE9]) (s_codec (fst fresh_signer))
     = Inl (Thrown ''not ascii'')"
    by (simp add: fresh_signer_def WebSigner_new_eq ascii_codec_def)
  show ?thesis
    using f write_coercion_failure_recoverable [OF f, of fake_env "[Write (DString ''ok''), Close]"]
    by simp
qed

subsection \<open>C6: key resolution\<close>

text \<open>
  C6. Key resolution has three cases. A prepared handle is the result as it is, with no
  call to the engine, and \<^verbatim>\<open>sign\<close> hands that same handle to the engine. A promise of a
  key is awaited: once fulfilled, its value is resolved as a key given directly would
  be; rejected or never settled, so is the result, with no call to the engine. For a
  SimpleKey the result is that of the engine's \<^verbatim>\<open>importKey\<close> on the encoded key data,
  with the descriptor made of the algorithm and the hash name, not extractable, for
  signing and verifying. \<^verbatim>\<open>sign\<close> is this resolution followed by the engine's
  \<^verbatim>\<open>sign\<close> on the coerced payload.
\<close>

theorem key_resolution_dispatch:
  "resolved_key E algorithm (Now (KeyHandle ck)) = ([], Fulfilled ck)
   \<and> resolved_key E algorithm (Later (Fulfilled key)) = resolved_key E algorithm (Now key)
   \<and> resolved_key E algorithm (Later (Rejected e)) = ([], Rejected e)
   \<and> resolved_key E algorithm (Later Unsettled) = ([], Unsettled)
   \<and> (utf8 E (sk_data sk) = Inr ns \<longrightarrow>
        resolved_key E algorithm (Now (KeySimple sk)) =
          ([ImportKey ''raw'' (map ToUint8 ns)
              (AlgorithmAndHash algorithm (hash_name_of (sk_algorithm sk))) False [''sign'', ''verify'']],
           importKey E ''raw'' (map ToUint8 ns)
              (AlgorithmAndHash algorithm (hash_name_of (sk_algorithm sk))) False [''sign'', ''verify'']))
   \<and> sign E h algorithm k d codec =
        then_p (resolved_key E algorithm k)
          (\<lambda>ck. case coerced h d codec of
                   Inl e \<Rightarrow> ([], Rejected e)
                 | Inr bs \<Rightarrow> ([Sign algorithm ck bs], subtle_sign E algorithm ck bs))
   \<and> (coerced h d codec = Inr bs \<longrightarrow>
        sign E h algorithm (Now (KeyHandle ck)) d codec =
          ([Sign algorithm ck bs], subtle_sign E algorithm ck bs))"
proof -
  have s: "sign E h algorithm k d codec =
        then_p (resolved_key E algorithm k)
          (\<lambda>ck. case coerced h d codec of
                   Inl e \<Rightarrow> ([], Rejected e)
                 | Inr bs \<Rightarrow> ([Sign algorithm ck bs], subtle_sign E algorithm ck bs))" for k
    by (rule sign_by_coerced)
  have r: "resolved_key E algorithm (Now (KeyHandle ck)) = ([], Fulfilled ck)"
    by (simp add: resolved_key_def then_p_def produceCryptoKey_def)
  have "coerced h d codec = Inr bs \<longrightarrow>
        sign E h algorithm (Now (KeyHandle ck)) d codec =
          ([Sign algorithm ck bs], subtle_sign E algorithm ck bs)"
    by (simp add: s r then_p_def)
  moreover have "utf8 E (sk_data sk) = Inr ns \<longrightarrow>
        resolved_key E algorithm (Now (KeySimple sk)) =
          ([ImportKey ''raw'' (map ToUint8 ns)
              (AlgorithmAndHash algorithm (hash_name_of (sk_algorithm sk))) False [''sign'', ''verify'']],
           importKey E ''raw'' (map ToUint8 ns)
              (AlgorithmAndHash algorithm (hash_name_of (sk_algorithm sk))) False [''sign'', ''verify''])"
    by (simp add: resolved_key_simple)
  moreover have "resolved_key E algorithm (Later (Fulfilled key)) = resolved_key E algorithm (Now key)"
    "resolved_key E algorithm (Later (Rejected e)) = ([], Rejected e)"
    "resolved_key E algorithm (Later Unsettled) = ([], Unsettled)"
    by (simp_all add: resolved_key_def then_p_def)
  ultimately show ?thesis
    using r s [of k] by simp
qed

theorem key_resolution_dispatch_witness:
  "utf8 fake_env (sk_data secret_key) = Inr [115, 101, 99, 114, 101, 116]
   \<and> coerced [] (DNumbers [1, 2]) ascii_codec = Inr [1, 2]
   \<and> resolved_key fake_env ''hmac'' (Later (Fulfilled (KeySimple secret_key))) =
       ([ImportKey ''raw'' [115, 101, 99, 114, 101, 116]
           (AlgorithmAndHash ''hmac'' (JString ''sha-256'')) False [''sign'', ''verify'']],
        Fulfilled (CryptoKey 6))
   \<and> sign fake_env [] ''hmac'' (Now (KeyHandle (CryptoKey 6))) (DNumbers [1, 2]) ascii_codec =
       ([Sign ''hmac'' (CryptoKey 6) [1, 2]], Fulfilled [6, 1, 2])"
proof -
  have u: "utf8 fake_env (sk_data secret_key) = Inr [115, 101, 99, 114, 101, 116]"
    by (simp add: fake_env_def secret_key_def ascii_codec_def)
  have c: "coerced [] (DNumbers [1, 2]) ascii_codec = Inr [1, 2]"
    by (simp add: coerced_def new_Uint8Array_from_def ToUint8_def)
  have a: "sk_algorithm secret_key = ''sha256''"
    by (simp add: secret_key_def)
  have n: "hash_name_of ''sha256'' = JString ''sha-256''"
    by (simp add: hash_name_of_def js_or_def js_get_def HASH_def)
  have i: "importKey fake_env ''raw'' [115, 101, 99, 114, 101, 116]
             (AlgorithmAndHash ''hmac'' (JString ''sha-256'')) False [''sign'', ''verify'']
           = Fulfilled (CryptoKey 6)"
    by (simp add: fake_env_def)
  have g: "subtle_sign fake_env ''hmac'' (CryptoKey 6) [1, 2] = Fulfilled [6, 1, 2]"
    by (simp add: fake_env_def)
  show ?thesis
    using u c a n i g
      key_resolution_dispatch [of fake_env "''hmac''" "CryptoKey 6" "KeySimple secret_key"
        "Thrown ''no key''" secret_key "[115, 101, 99, 114, 101, 116]" "[]"
        "Now (KeyHandle (CryptoKey 6))" "DNumbers [1, 2]" ascii_codec "[1, 2]"]
    by (simp add: ToUint8_def then_p_def)
qed

subsection \<open>C7: writing after close\<close>

text \<open>
  C7, as stated, makes every \<^verbatim>\<open>write\<close> after a \<^verbatim>\<open>close\<close> fail. A call of \<^verbatim>\<open>start\<close> after the
  \<^verbatim>\<open>close\<close> gives the signer a new empty buffer, and the next \<^verbatim>\<open>write\<close> then succeeds and
  stores its chunk.
\<close>

theorem write_after_close_counterexample:
  "fst (step fake_env (run fake_env fresh_signer [Close, Start]) (Write (DNumbers [1]))) = Fulfilled ()
   \<and> s_buffer (fst (run fake_env fresh_signer [Close, Start, Write (DNumbers [1])])) = Some 3
   \<and> snd (run fake_env fresh_signer [Close, Start, Write (DNumbers [1])]) ! 3 = [1]"
  by (simp add: fresh_signer_def WebSigner_new_eq WebSigner_close_def WebSigner_start_def
      WebSigner_write_def new_Uint8Array_length_def new_Uint8Array_from_def
      concatUint8Arrays_closed_form ToUint8_def)

text \<open>
  C7, in the form that holds. \<^verbatim>\<open>close\<close> leaves the buffer \<^verbatim>\<open>null\<close>. As long as \<^verbatim>\<open>start\<close> is
  not called again, the buffer stays \<^verbatim>\<open>null\<close> through every later call, and the promise
  returned by every later \<^verbatim>\<open>write\<close> is rejected, the signer being left as it was.
\<close>

theorem buffer_released_after_close:
  assumes "Start \<notin> set ops"
  shows "s_buffer (fst (snd (WebSigner_close E s h))) = None
         \<and> s_buffer (fst (run E (snd (WebSigner_close E s h)) ops)) = None
         \<and> (\<exists>e. fst (WebSigner_write (fst (run E (snd (WebSigner_close E s h)) ops))
                       (snd (run E (snd (WebSigner_close E s h)) ops)) chunk) = Rejected e)
         \<and> fst (snd (WebSigner_write (fst (run E (snd (WebSigner_close E s h)) ops))
                       (snd (run E (snd (WebSigner_close E s h)) ops)) chunk))
             = fst (run E (snd (WebSigner_close E s h)) ops)"
proof -
  have c: "s_buffer (fst (snd (WebSigner_close E s h))) = None"
    by (simp add: WebSigner_close_def)
  have r: "s_buffer (fst (run E (snd (WebSigner_close E s h)) ops)) = None"
    using c assms by (rule run_released)
  show ?thesis
    using c r write_released [OF r] by simp
qed

theorem buffer_released_after_close_witness:
  "Start \<notin> set [Write (DString ''more''), Abort (Thrown ''stop''), Close]
   \<and> s_buffer (fst (run fake_env (snd (WebSigner_close fake_env (fst fresh_signer) (snd fresh_signer)))
                      [Write (DString ''more''), Abort (Thrown ''stop''), Close])) = None
   \<and> fst (WebSigner_write
            (fst (run fake_env (snd (WebSigner_close fake_env (fst fresh_signer) (snd fresh_signer)))
                      [Write (DString ''more''), Abort (Thrown ''stop''), Close]))
            (snd (run fake_env (snd (WebSigner_close fake_env (fst fresh_signer) (snd fresh_signer)))
                      [Write (DString ''more''), Abort (Thrown ''stop''), Close]))
            (DNumbers [1])) = Rejected TypeError"
proof -
  have n: "Start \<notin> set [Write (DString ''more''), Abort (Thrown ''stop''), Close]"
    by simp
  have w: "fst (WebSigner_write
            (fst (run fake_env (snd (WebSigner_close fake_env (fst fresh_signer) (snd fresh_signer)))
                      [Write (DString ''more''), Abort (Thrown ''stop''), Close]))
            (snd (run fake_env (snd (WebSigner_close fake_env (fst fresh_signer) (snd fresh_signer)))
                      [Write (DString ''more''), Abort (Thrown ''stop''), Close]))
            (DNumbers [1])) = Rejected TypeError"
    by (simp add: fresh_signer_def WebSigner_new_eq WebSigner_close_def WebSigner_abort_def
        WebSigner_write_def new_Uint8Array_from_def concatUint8Arrays_null ascii_codec_def
        reject_cell_def resolve_cell_def)
  show ?thesis
    using n w
      buffer_released_after_close [OF n, of fake_env "fst fresh_signer" "snd fresh_signer"
        "DNumbers [1]"]
    by simp
qed

subsection \<open>C8: byte coercion\<close>

text \<open>
  C8. \<^verbatim>\<open>dataToArrayBufferView\<close> goes by the kind of payload. A string is encoded with the
  codec given, and the numbers that the codec returns are stored in a new array (an
  exception of the codec is passed on). A \<^verbatim>\<open>Uint8Array\<close> is returned as it is: the same
  reference, and nothing is allocated. Any other sequence of numbers, the empty one
  included, is copied element by element into a new array of the same length, each
  number converted to a byte, which leaves the numbers from 0 to 255 as they are. A new
  array is one that was not in the store, and the arrays of the store keep their content.
\<close>

theorem byte_coercion_by_case:
  "(codec s = Inr ns \<longrightarrow>
      (\<exists>view h'. dataToArrayBufferView h (DString s) codec = Inr (view, h')
         \<and> h' ! view = map ToUint8 ns
         \<and> \<not> view < length h \<and> length h' = Suc (length h) \<and> (\<forall>a < length h. h' ! a = h ! a)))
   \<and> (codec t = Inl e \<longrightarrow> dataToArrayBufferView h (DString t) codec = Inl e)
   \<and> dataToArrayBufferView h (DBytes r) codec = Inr (r, h)
   \<and> (\<exists>view h'. dataToArrayBufferView h (DNumbers ms) codec = Inr (view, h')
         \<and> length (h' ! view) = length ms
         \<and> (\<forall>i < length ms. h' ! view ! i = ToUint8 (ms ! i))
         \<and> ((\<forall>m \<in> set ms. 0 \<le> m \<and> m < 256) \<longrightarrow> map uint (h' ! view) = ms)
         \<and> \<not> view < length h \<and> length h' = Suc (length h) \<and> (\<forall>a < length h. h' ! a = h ! a))"
proof -
  have u: "(\<forall>m \<in> set ms. 0 \<le> m \<and> m < 256) \<longrightarrow> map uint (map ToUint8 ms) = ms"
    by (induction ms) (simp_all add: ToUint8_def uint_word_of_int)
  show ?thesis
    using u by (simp add: new_Uint8Array_from_def nth_append)
qed

theorem byte_coercion_by_case_witness:
  "ascii_codec ''hi'' = Inr [104, 105]
   \<and> ascii_codec [CHR 0xE9] = Inl (Thrown ''not ascii'')
   \<and> (0::int) \<le> 7 \<and> (7::int) < 256 \<and> (0::nat) < length [[9 :: byte]] \<and> (0::nat) < length [7 :: int]
   \<and> dataToArrayBufferView [[9]] (DString ''hi'') ascii_codec = Inr (1, [[9], [104, 105]])
   \<and> dataToArrayBufferView [[9]] (DString [CHR 0xE9]) ascii_codec = Inl (Thrown ''not ascii'')
   \<and> dataToArrayBufferView [[9]] (DBytes 0) ascii_codec = Inr (0, [[9]])
   \<and> dataToArrayBufferView [[9]] (DNumbers [7]) ascii_codec = Inr (1, [[9], [7]])
   \<and> dataToArrayBufferView [[9]] (DNumbers []) ascii_codec = Inr (1, [[9], []])"
  using byte_coercion_by_case [of ascii_codec "''hi''" "[104, 105]" "[[9]]" "[CHR 0xE9]"
      "Thrown ''not ascii''" 0 "[7]"]
  by (simp add: ascii_codec_def new_Uint8Array_from_def ToUint8_def)

subsection \<open>C9: concatenation\<close>

text \<open>
  C9. For every pair of byte sequences \<open>left\<close> and \<open>right\<close> of the store,
  \<^verbatim>\<open>concatUint8Arrays(left, right)\<close> returns an array of length
  \<open>left.length + right.length\<close> that holds the bytes of \<open>left\<close> from offset 0 and the bytes
  of \<open>right\<close> right after them. The array is a fresh one: its reference differs from both
  inputs and from every array allocated before, and every array allocated before keeps
  its content.
\<close>

theorem concat_fresh_copy:
  assumes "left < length h" and "right < length h"
  shows "\<exists>result h'. concatUint8Arrays h (Some left) right = Inr (result, h')
           \<and> length (h' ! result) = length (h ! left) + length (h ! right)
           \<and> take (length (h ! left)) (h' ! result) = h ! left
           \<and> drop (length (h ! left)) (h' ! result) = h ! right
           \<and> result \<noteq> left \<and> result \<noteq> right \<and> \<not> result < length h
           \<and> length h' = Suc (length h)
           \<and> (\<forall>a < length h. h' ! a = h ! a)"
  using assms by (simp add: concatUint8Arrays_closed_form nth_append)

theorem concat_fresh_copy_witness:
  "(0::nat) < length [[1, 2], [3 :: byte]] \<and> (1::nat) < length [[1, 2], [3 :: byte]]
   \<and> concatUint8Arrays [[1, 2], [3]] (Some 0) 1 = Inr (2, [[1, 2], [3], [1, 2, 3]])"
proof -
  have l: "(0::nat) < length [[1, 2], [3 :: byte]]" and r: "(1::nat) < length [[1, 2], [3 :: byte]]"
    by simp_all
  show ?thesis
    using l r concat_fresh_copy [OF l r] by (simp add: concatUint8Arrays_closed_form)
qed

subsection \<open>C10: key material is always encoded with UTF-8\<close>

text \<open>
  C10. For a SimpleKey, given directly or as the value of a fulfilled promise, whose data
  the \<^verbatim>\<open>utf8\<close> codec encodes: whatever codec the caller gives to the one-shot call or to
  \<^verbatim>\<open>create\<close>, \<^verbatim>\<open>importKey\<close> is called once and its key material is the \<^verbatim>\<open>utf8\<close> encoding
  of the key data. For the streaming signer this holds of the promise that \<^verbatim>\<open>signature\<close>
  is resolved with, after any sequence of calls.
\<close>

theorem key_material_is_utf8:
  assumes "snd (Promise_resolve k) = Fulfilled (KeySimple sk)" and "utf8 E (sk_data sk) = Inr ns"
  shows "import_inputs (fst (signFunction_call E h sf k d codec)) = [map ToUint8 ns]
         \<and> (signature (fst (run E (signFunction_create E h sf k codec) ops)) = ResolvedWith p
              \<longrightarrow> import_inputs (fst p) = [map ToUint8 ns])"
proof -
  have k: "snd (Promise_resolve (s_key (fst (signFunction_create E h sf k codec)))) = Fulfilled (KeySimple sk)"
    using assms(1) by (simp add: signFunction_create_def WebSigner_new_eq)
  have i: "\<forall>p. signature (fst (signFunction_create E h sf k codec)) = ResolvedWith p \<longrightarrow>
             import_inputs (fst p) = [map ToUint8 ns]"
    by (simp add: signFunction_create_def WebSigner_new_eq)
  have "\<forall>p. signature (fst (run E (signFunction_create E h sf k codec) ops)) = ResolvedWith p \<longrightarrow>
           import_inputs (fst p) = [map ToUint8 ns]"
    using k assms(2) i by (rule run_import_inputs)
  then have "signature (fst (run E (signFunction_create E h sf k codec) ops)) = ResolvedWith p
              \<longrightarrow> import_inputs (fst p) = [map ToUint8 ns]"
    by (rule spec)
  moreover have "import_inputs (fst (signFunction_call E h sf k d codec)) = [map ToUint8 ns]"
    unfolding signFunction_call_def by (rule sign_import_inputs [OF assms])
  ultimately show ?thesis by (rule conjI [rotated])
qed

theorem key_material_is_utf8_witness:
  "snd (Promise_resolve (Later (Fulfilled (KeySimple secret_key)))) = Fulfilled (KeySimple secret_key)
   \<and> utf8 fake_env (sk_data secret_key) = Inr [115, 101, 99, 114, 101, 116]
   \<and> reverse_codec ''ab'' \<noteq> utf8 fake_env ''ab''
   \<and> import_inputs (fst (signFunction_call fake_env [] hmac (Later (Fulfilled (KeySimple secret_key)))
                            (DString ''ab'') (Some reverse_codec))) = [[115, 101, 99, 114, 101, 116]]
   \<and> signature (fst (run fake_env (signFunction_create fake_env [] hmac (Later (Fulfilled (KeySimple secret_key)))
                                     (Some reverse_codec)) [Write (DString ''ab''), Close]))
       = ResolvedWith ([ImportKey ''raw'' [115, 101, 99, 114, 101, 116]
                          (AlgorithmAndHash ''hmac'' (JString ''sha-256'')) False [''sign'', ''verify''],
                        Sign ''hmac'' (CryptoKey 6) [98, 97]], Fulfilled [6, 98, 97])"
proof -
  have k: "snd (Promise_resolve (Later (Fulfilled (KeySimple secret_key)))) = Fulfilled (KeySimple secret_key)"
    by simp
  have u: "utf8 fake_env (sk_data secret_key) = Inr [115, 101, 99, 114, 101, 116]"
    by (simp add: fake_env_def secret_key_def ascii_codec_def)
  have c: "reverse_codec ''ab'' \<noteq> utf8 fake_env ''ab''"
    by (simp add: fake_env_def reverse_codec_def ascii_codec_def)
  have s: "signature (fst (run fake_env (signFunction_create fake_env [] hmac (Later (Fulfilled (KeySimple secret_key)))
                                     (Some reverse_codec)) [Write (DString ''ab''), Close]))
       = ResolvedWith ([ImportKey ''raw'' [115, 101, 99, 114, 101, 116]
                          (AlgorithmAndHash ''hmac'' (JString ''sha-256'')) False [''sign'', ''verify''],
                        Sign ''hmac'' (CryptoKey 6) [98, 97]], Fulfilled [6, 98, 97])"
    by (simp add: signFunction_create_def WebSigner_new_eq codec_or_default_def hmac_def
        WebSigner_write_def WebSigner_close_def reverse_codec_def new_Uint8Array_from_def
        concatUint8Arrays_closed_form resolve_cell_def buffer_data_def sign_def resolved_key_def
        then_p_def produceCryptoKey_def fake_env_def secret_key_def ascii_codec_def
        hash_name_of_def js_or_def js_get_def HASH_def ToUint8_def)
  show ?thesis
    using k u c s
      key_material_is_utf8 [OF k u, of "[]" hmac "DString ''ab''" "Some reverse_codec"
        "[Write (DString ''ab''), Close]"
        "([ImportKey ''raw'' [115, 101, 99, 114, 101, 116]
                          (AlgorithmAndHash ''hmac'' (JString ''sha-256'')) False [''sign'', ''verify''],
                        Sign ''hmac'' (CryptoKey 6) [98, 97]], Fulfilled [6, 98, 97])"]
    by (simp add: ToUint8_def)
qed

end
